theory Spec2Isabelle
  imports Main "HOL-Library.Log_Nat"
begin

section \<open>Batch state (class \<open>BatchState\<close> of \<open>server_enhanced.py\<close>)\<close>

text \<open>
  The backend keeps one process-wide \<open>BatchState\<close>. Every method takes the object's
  re-entrant lock for its whole body, so each method is one atomic step and is modelled
  as a function from the state before to the state after. The \<open>_lock\<close> field itself
  carries no data and is left out.

  A progress entry is the dictionary
  \<^verbatim>\<open>{'image_index': idx, 'filename': fname, 'status': 'pending', 'error': None}\<close>.
  The record type is polymorphic in the type of the elements of \<open>progress\<close>: with
  \<open>progress_item\<close> the list holds the dictionaries by value; with an address it holds
  references into a store of dictionaries (used further down, where sharing matters).
  The field \<open>total\<close> of the source is called \<open>total'\<close> here.
\<close>

record progress_item =
  image_index :: int
  filename :: string
  status :: string
  error :: "string option"

text \<open>
  The dictionary a worker returns: on success it has the keys \<open>success\<close>,
  \<open>image_index\<close>, \<open>filename\<close>, \<open>corrected_images\<close> (name and encoded data of each
  image), \<open>original_path\<close> and an empty \<open>metrics\<close>; on failure \<open>success\<close>,
  \<open>image_index\<close>, \<open>filename\<close> and \<open>error\<close>.
\<close>

datatype result =
  Success (r_image_index: int) (r_filename: string)
          (r_corrected_images: "(string \<times> string) list") (r_original_path: string)
| Failure (r_image_index: int) (r_filename: string) (r_error: string)

fun success :: "result \<Rightarrow> bool" where
  "success (Success _ _ _ _) = True"
| "success (Failure _ _ _) = False"

record 'p BatchState =
  batch_id :: string
  active :: bool
  progress :: "'p list"
  results :: "result list"
  total' :: int
  completed :: int
  failed :: int

text \<open>The dataclass defaults: \<open>parallel_batch_state = BatchState()\<close>.\<close>

definition BatchState_init :: "'p BatchState" where
  "BatchState_init =
     \<lparr>batch_id = [], active = False, progress = [], results = [],
      total' = 0, completed = 0, failed = 0\<rparr>"

definition pending_item :: "int \<times> string \<Rightarrow> progress_item" where
  "pending_item = (\<lambda>(idx, fname).
     \<lparr>image_index = idx, filename = fname, status = ''pending'', error = None\<rparr>)"

definition reset ::
  "progress_item BatchState \<Rightarrow> string \<Rightarrow> int \<Rightarrow> int list \<Rightarrow> string list
     \<Rightarrow> progress_item BatchState" where
  "reset self bid tot image_indices filenames =
     self\<lparr>batch_id := bid, active := True, total' := tot, completed := 0, failed := 0,
          progress := map pending_item (zip image_indices filenames),
          results := []\<rparr>"

text \<open>
  \<^verbatim>\<open>if error:\<close> on an \<open>Optional[str]\<close>: \<open>None\<close> and the empty string are false.
\<close>

fun truthy :: "string option \<Rightarrow> bool" where
  "truthy None = False"
| "truthy (Some e) = (e \<noteq> [])"

text \<open>
  The \<^verbatim>\<open>for p in self.progress\<close> loop of \<open>update_status\<close>: the first entry with
  the index is updated and the loop breaks.
\<close>

fun update_status_loop ::
  "progress_item list \<Rightarrow> int \<Rightarrow> string \<Rightarrow> string option \<Rightarrow> progress_item list" where
  "update_status_loop [] idx st err = []"
| "update_status_loop (p # ps) idx st err =
     (if image_index p = idx
      then p\<lparr>status := st, error := (if truthy err then err else error p)\<rparr> # ps
      else p # update_status_loop ps idx st err)"

text \<open>
  After the loop the counters are updated from the \<open>status\<close> argument alone; the
  \<^verbatim>\<open>if status == 'completed': ... elif status == 'failed': ...\<close> is not inside the
  branch that found the entry.
\<close>

definition update_status ::
  "progress_item BatchState \<Rightarrow> int \<Rightarrow> string \<Rightarrow> string option \<Rightarrow> progress_item BatchState"
  where
  "update_status self idx st err =
     (let self1 = self\<lparr>progress := update_status_loop (progress self) idx st err\<rparr>
      in if st = ''completed'' then self1\<lparr>completed := completed self1 + 1\<rparr>
         else if st = ''failed'' then self1\<lparr>failed := failed self1 + 1\<rparr>
         else self1)"

definition add_result :: "'p BatchState \<Rightarrow> result \<Rightarrow> 'p BatchState" where
  "add_result self r = self\<lparr>results := results self @ [r]\<rparr>"

definition is_active :: "'p BatchState \<Rightarrow> bool" where
  "is_active self = active self"

definition mark_complete :: "'p BatchState \<Rightarrow> 'p BatchState" where
  "mark_complete self = self\<lparr>active := False\<rparr>"

text \<open>
  \<open>get_status\<close> builds a new dictionary; \<^verbatim>\<open>self.progress.copy()\<close> is a new list with
  the same elements.
\<close>

record 'p snapshot =
  s_batch_id :: string
  s_active :: bool
  s_total :: int
  s_completed :: int
  s_failed :: int
  s_progress :: "'p list"
  s_has_results :: bool

definition get_status :: "'p BatchState \<Rightarrow> 'p snapshot" where
  "get_status self =
     \<lparr>s_batch_id = batch_id self, s_active = active self, s_total = total' self,
      s_completed = completed self, s_failed = failed self,
      s_progress = progress self, s_has_results = (length (results self) > 0)\<rparr>"

section \<open>Properties of \<open>update_status\<close>\<close>

lemma update_status_loop_unknown:
  "idx \<notin> image_index ` set ps \<Longrightarrow> update_status_loop ps idx st err = ps"
  by (induction ps) auto

lemma update_status_loop_length [simp]:
  "length (update_status_loop ps idx st err) = length ps"
  by (induction ps) auto

text \<open>
  C2 (as stated, refuted): an index that matches no progress entry is not a no-op. With
  the batch of one item \<open>0\<close>, \<open>update_status(5, 'completed')\<close> raises \<open>completed\<close> from 0
  to 1 although index 5 is unknown, and two calls for item 0 with \<open>'completed'\<close> count
  twice.
\<close>

theorem update_status_unknown_index_counts:
  "5 \<notin> image_index ` set (progress (reset BatchState_init ''b1'' 1 [0] [''a.png''])) \<and>
   completed (reset BatchState_init ''b1'' 1 [0] [''a.png'']) = 0 \<and>
   completed (update_status (reset BatchState_init ''b1'' 1 [0] [''a.png''])
                5 ''completed'' None) = 1 \<and>
   completed (update_status
                (update_status (reset BatchState_init ''b1'' 1 [0] [''a.png''])
                   0 ''completed'' None)
                0 ''completed'' None) = 2"
  by (simp add: reset_def BatchState_init_def update_status_def pending_item_def)

text \<open>
  C2 (amended): for an index that matches no progress entry, \<open>update_status\<close> leaves
  the progress list and every other field as they are, except that \<open>completed\<close> grows
  by one when the status argument is \<open>'completed'\<close> and \<open>failed\<close> grows by one when it
  is \<open>'failed'\<close>. The call is a no-op exactly for the other statuses: the counters
  follow the status argument of each call, not an item's transition.
\<close>

theorem update_status_unknown_index:
  assumes "idx \<notin> image_index ` set (progress self)"
  shows "update_status self idx st err =
           self\<lparr>completed := completed self + (if st = ''completed'' then 1 else 0),
                failed := failed self + (if st = ''failed'' then 1 else 0)\<rparr>"
  using assms by (simp add: update_status_def update_status_loop_unknown)

theorem update_status_unknown_index_witness:
  "5 \<notin> image_index ` set (progress (reset BatchState_init ''b1'' 1 [0] [''a.png''])) \<and>
   failed (update_status (reset BatchState_init ''b1'' 1 [0] [''a.png''])
             5 ''failed'' (Some ''x'')) = 1 \<and>
   progress (update_status (reset BatchState_init ''b1'' 1 [0] [''a.png''])
               5 ''failed'' (Some ''x''))
     = progress (reset BatchState_init ''b1'' 1 [0] [''a.png''])"
proof -
  have h: "5 \<notin> image_index ` set (progress (reset BatchState_init ''b1'' 1 [0] [''a.png'']))"
    by (simp add: reset_def BatchState_init_def pending_item_def)
  show ?thesis
    using h update_status_unknown_index [OF h, of "''failed''" "Some ''x''"]
    by (simp add: reset_def BatchState_init_def)
qed

section \<open>Worker policy (\<open>calculate_optimal_workers\<close>)\<close>

text \<open>
  The CPU branch computes \<^verbatim>\<open>int(0.6 * cpu_count)\<close>: the integer \<open>cpu_count\<close> is
  converted to a binary64 float, multiplied by the binary64 constant nearest to 0.6,
  the product is rounded to nearest (ties to even) and \<open>int\<close> truncates it. That
  computation is modelled exactly on natural numbers, for a \<open>cpu_count\<close> below \<open>2^53\<close>
  (which the conversion to float represents exactly). The constant \<open>0.6\<close> is
  \<open>5404319552844595 / 2^53\<close>; a product is kept as its numerator over \<open>2^53\<close>.
\<close>

definition double_0_6 :: nat where
  "double_0_6 = 5404319552844595"

text \<open>\<open>P / 2^s\<close> rounded to the nearest integer, ties to the even one.\<close>

definition round_half_even :: "nat \<Rightarrow> nat \<Rightarrow> nat" where
  "round_half_even P s =
     (let q = P div 2 ^ s; r = P mod 2 ^ s
      in if 2 * r > 2 ^ s \<or> (2 * r = 2 ^ s \<and> odd q) then q + 1 else q)"

text \<open>
  The exact product has \<open>L\<close> significant bits; binary64 keeps 53 of them, so the low
  \<open>L - 53\<close> bits are rounded away.
\<close>

definition float_mul_0_6 :: "nat \<Rightarrow> nat" where
  "float_mul_0_6 n =
     (let P = n * double_0_6; L = floorlog 2 P
      in if L \<le> 53 then P else round_half_even P (L - 53) * 2 ^ (L - 53))"

definition int_float_mul_0_6 :: "nat \<Rightarrow> nat" where
  "int_float_mul_0_6 n = float_mul_0_6 n div 2 ^ 53"

text \<open>
  \<open>cpu_count\<close> is what \<^verbatim>\<open>multiprocessing.cpu_count()\<close> returns; the function reads it
  itself, here it is the first parameter.
\<close>

definition calculate_optimal_workers :: "nat \<Rightarrow> int \<Rightarrow> bool \<Rightarrow> int" where
  "calculate_optimal_workers cpu_count num_images has_gpu =
     (if has_gpu then min 2 num_images
      else let optimal_workers = max 1 (int (int_float_mul_0_6 cpu_count))
           in min optimal_workers num_images)"

text \<open>
  The request's \<open>max_workers\<close> field is read through \<^verbatim>\<open>int(user_max_workers)\<close>.
  \<open>MwNone\<close> is an absent or \<open>null\<close> field, \<open>MwInt k\<close> a value that \<open>int\<close> converts
  to \<open>k\<close>, and \<open>MwRaises\<close> a value on which \<open>int\<close> raises (the handler then answers
  500).
\<close>

datatype max_workers_field = MwNone | MwInt int | MwRaises

text \<open>
  The sizing code of \<open>run_color_correction_parallel\<close> (bulk batch, cap 16) and of
  \<open>apply_color_correction\<close> (inference with the shared model, cap 8). \<open>None\<close> is the
  raised exception.
\<close>

definition run_cc_max_workers ::
  "nat \<Rightarrow> bool \<Rightarrow> max_workers_field \<Rightarrow> int \<Rightarrow> int option" where
  "run_cc_max_workers cpu_count has_gpu user_max_workers n_validated =
     (case user_max_workers of
        MwInt k \<Rightarrow> Some (max 1 (min k (min 16 n_validated)))
      | MwRaises \<Rightarrow> None
      | MwNone \<Rightarrow> Some (calculate_optimal_workers cpu_count n_validated has_gpu))"

definition apply_cc_max_workers ::
  "nat \<Rightarrow> bool \<Rightarrow> max_workers_field \<Rightarrow> int \<Rightarrow> int option" where
  "apply_cc_max_workers cpu_count has_gpu user_max_workers n_indices =
     (case user_max_workers of
        MwInt k \<Rightarrow> Some (max 1 (min k (min 8 n_indices)))
      | MwRaises \<Rightarrow> None
      | MwNone \<Rightarrow>
          (let optimal_workers = calculate_optimal_workers cpu_count n_indices has_gpu
           in Some (min 2 (min optimal_workers n_indices))))"

subsection \<open>The float product agrees with the integer floor\<close>

lemma div_eq_between:
  fixes R B k :: nat
  assumes "k * B \<le> R" "R < (k + 1) * B"
  shows "R div B = k"
  by (rule div_nat_eqI) (use assms in \<open>simp_all add: algebra_simps\<close>)

lemma round_half_even_near:
  fixes P s :: nat
  assumes "1 \<le> s"
  defines "R \<equiv> round_half_even P s * 2 ^ s"
  shows "R \<le> P + 2 ^ (s - 1)" and "P \<le> R + 2 ^ (s - 1)"
proof -
  define T :: nat where "T = 2 ^ s"
  define H :: nat where "H = 2 ^ (s - 1)"
  define q where "q = P div T"
  define r where "r = P mod T"
  have TH: "T = 2 * H" using assms(1) unfolding T_def H_def
    by (cases s) simp_all
  have P: "P = q * T + r" unfolding q_def r_def by simp
  have r: "r < T" unfolding r_def T_def by simp
  have R: "R = (if 2 * r > T \<or> (2 * r = T \<and> odd q) then q + 1 else q) * T"
    unfolding R_def round_half_even_def Let_def T_def q_def r_def by simp
  show "R \<le> P + 2 ^ (s - 1)"
  proof (cases "2 * r > T \<or> (2 * r = T \<and> odd q)")
    case True
    then have "R = q * T + T" using R by auto
    moreover have "T \<le> r + H" using True TH by linarith
    ultimately show ?thesis unfolding H_def[symmetric] using P by linarith
  next
    case False
    then have "R = q * T" using R by auto
    then show ?thesis using P by linarith
  qed
  show "P \<le> R + 2 ^ (s - 1)"
  proof (cases "2 * r > T \<or> (2 * r = T \<and> odd q)")
    case True
    then have "R = q * T + T" using R by auto
    then show ?thesis using P r by linarith
  next
    case False
    then have "R = q * T" using R by auto
    moreover have "r \<le> H" using False TH by linarith
    ultimately show ?thesis unfolding H_def[symmetric] using P by linarith
  qed
qed

lemma div_mod_unique_nat:
  fixes P a T b :: nat
  assumes "P = a * T + b" "b < T"
  shows "P div T = a" and "P mod T = b"
  using assms by simp_all

lemma int_float_mul_0_6_eq:
  assumes n1: "1 \<le> n" and n50: "n < 2 ^ 50"
  shows "int_float_mul_0_6 n = (3 * n) div 5"
proof -
  define P where "P = n * double_0_6"
  define L where "L = floorlog 2 P"
  define k where "k = (3 * n) div 5"
  define rho where "rho = (3 * n) mod 5"
  have nlt: "n < 1125899906842624" using n50 by simp
  have P5: "5 * P + n = n * 27021597764222976"
    unfolding P_def double_0_6_def by simp
  have kr: "3 * n = 5 * k + rho" and rho5: "rho < 5"
    unfolding k_def rho_def by simp_all
  have Ppos: "0 < P" unfolding P_def double_0_6_def using n1 by simp
  have unfold: "int_float_mul_0_6 n =
      (if L \<le> 53 then P else round_half_even P (L - 53) * 2 ^ (L - 53)) div 2 ^ 53"
    unfolding int_float_mul_0_6_def float_mul_0_6_def Let_def P_def L_def by simp
  show ?thesis
  proof (cases "L \<le> 53")
    case True
    then have "P < 2 ^ 53" unfolding L_def by (rule floorlog_leD) simp
    then have Plt: "P < 9007199254740992" by simp
    then have "n = 1" using n1 unfolding P_def double_0_6_def by linarith
    then show ?thesis using unfold True Plt by simp
  next
    case False
    define s where "s = L - 53"
    define T :: nat where "T = 2 ^ s"
    define H :: nat where "H = 2 ^ (s - 1)"
    define R where "R = round_half_even P s * 2 ^ s"
    have s1: "1 \<le> s" and L_eq: "L = s + 53" using False unfolding s_def by simp_all
    have TH: "T = 2 * H" using s1 unfolding T_def H_def by (cases s) simp_all
    have bounds: "2 ^ (L - 1) \<le> P" "P < 2 ^ L"
      using floorlog_bounds [OF Ppos, of 2] unfolding L_def by simp_all
    have "L - 1 = (s - 1) + 53" using s1 L_eq by simp
    then have "(2::nat) ^ (L - 1) = H * 9007199254740992"
      unfolding H_def by (simp add: power_add)
    with bounds(1) have HP: "H * 9007199254740992 \<le> P" by simp
    have "(2::nat) ^ L = T * 9007199254740992"
      unfolding T_def L_eq by (simp add: power_add)
    with bounds(2) have PT: "P < T * 9007199254740992" by simp
    have Hn: "H < n" using HP P5 n1 by linarith
    have near: "R \<le> P + H" "P \<le> R + H"
      using round_half_even_near [OF s1, of P] unfolding R_def H_def by simp_all
    have res: "int_float_mul_0_6 n = R div 9007199254740992"
      using unfold False unfolding R_def s_def by simp
    have "R div 9007199254740992 = k"
    proof (cases "rho = 0")
      case False
      then have rho1: "1 \<le> rho" by simp
      have "n * 27021597764222976 = (3 * n) * 9007199254740992" by simp
      also have "\<dots> = (5 * k + rho) * 9007199254740992" using kr by simp
      finally have P5k: "5 * P + n = 5 * (k * 9007199254740992) + rho * 9007199254740992"
        using P5 by (simp add: algebra_simps)
      have "1 * 9007199254740992 \<le> rho * 9007199254740992"
        using rho1 by (intro mult_le_mono1)
      then have lo: "k * 9007199254740992 \<le> R"
        using near(2) P5k Hn nlt by linarith
      have "rho * 9007199254740992 \<le> 4 * 9007199254740992"
        using rho5 by (intro mult_le_mono1) simp
      then have "R < k * 9007199254740992 + 9007199254740992"
        using near(1) P5k Hn nlt by linarith
      then have hi: "R < (k + 1) * 9007199254740992" by simp
      show ?thesis using lo hi by (rule div_eq_between)
    next
      case True
      with kr have "3 * n = 5 * k" by simp
      then have "\<exists>m. n = 5 * m \<and> k = 3 * m" by presburger
      then obtain m where m: "n = 5 * m" "k = 3 * m" by blast
      have m1: "1 \<le> m" using n1 m by simp
      have Pm: "P + m = m * 27021597764222976" using P5 m by simp
      have T3: "3 * m \<le> T" using Pm PT nlt m by linarith
      have "s - 1 < 50"
      proof (rule power_less_imp_less_exp)
        show "(1::nat) < 2" by simp
        show "(2::nat) ^ (s - 1) < 2 ^ 50"
          using Hn n50 unfolding H_def by (rule less_trans)
      qed
      then have s53: "s \<le> 53" by simp
      define Q where "Q = k * 2 ^ (53 - s)"
      have "T * 2 ^ (53 - s) = (2::nat) ^ 53"
        unfolding T_def using s53 by (simp flip: power_add)
      then have QT: "Q * T = k * 9007199254740992"
        unfolding Q_def by (simp add: mult.assoc mult.commute)
      have "1 \<le> Q" unfolding Q_def using m m1 by simp
      then obtain Q' where Q': "Q = Q' + 1" by (metis add.commute le_Suc_ex)
      obtain b where b: "T = b + m" using T3 m1 by (metis add.commute le_Suc_ex le_trans le_add1 mult_Suc numeral_3_eq_3)
      have bpos: "b < T" using b m1 by simp
      have "Q' * T + T = k * 9007199254740992" using QT Q' by simp
      then have "P = Q' * T + b" using Pm m b by linarith
      then have dm: "P div T = Q'" "P mod T = b"
        using bpos by (simp_all add: div_mod_unique_nat)
      have "2 * b > T" using b T3 m1 by linarith
      then have "round_half_even P s = Q' + 1"
        unfolding round_half_even_def Let_def T_def [symmetric] dm by simp
      then have "R = k * 9007199254740992"
        unfolding R_def T_def [symmetric] using QT Q' by simp
      then show ?thesis by simp
    qed
    then show ?thesis using res unfolding k_def by simp
  qed
qed


lemma floor_0_6: "\<lfloor>0.6 * real n\<rfloor> = int ((3 * n) div 5)"
proof -
  have "0.6 * real n = real (3 * n) / real 5" by simp
  then show ?thesis by (simp only: floor_divide_of_nat_eq)
qed

lemma calculate_optimal_workers_cpu:
  assumes "1 \<le> cpu" "cpu < 2 ^ 50"
  shows "calculate_optimal_workers cpu n False = min (max 1 \<lfloor>0.6 * real cpu\<rfloor>) n"
proof -
  have "int_float_mul_0_6 cpu = (3 * cpu) div 5"
    by (rule int_float_mul_0_6_eq [OF assms])
  then show ?thesis
    unfolding calculate_optimal_workers_def floor_0_6 by simp
qed

text \<open>
  C7: for \<open>itemCount \<ge> 1\<close> and a CPU count from 1 up to \<open>2^50\<close> (the range in which
  the float product is the exact floor), without an override the GPU path gives
  \<open>min(2, itemCount)\<close> and the CPU path \<open>min(max(1, floor(0.6 * cpus)), itemCount)\<close>;
  with an override \<open>k\<close> the bulk-batch call site gives \<open>k\<close> clamped to
  \<open>[1, min(16, itemCount)]\<close>. The four examples of the specification follow.
\<close>

theorem worker_policy:
  assumes "1 \<le> n" "1 \<le> cpu" "cpu < 2 ^ 50"
  shows "run_cc_max_workers cpu True MwNone n = Some (min 2 n) \<and>
         run_cc_max_workers cpu False MwNone n = Some (min (max 1 \<lfloor>0.6 * real cpu\<rfloor>) n) \<and>
         (\<exists>w. run_cc_max_workers cpu gpu (MwInt k) n = Some w \<and> 1 \<le> w \<and> w \<le> min 16 n \<and>
              (1 \<le> k \<and> k \<le> min 16 n \<longrightarrow> w = k) \<and> (k < 1 \<longrightarrow> w = 1) \<and>
              (min 16 n < k \<longrightarrow> w = min 16 n)) \<and>
         run_cc_max_workers cpu False MwNone 1 = Some 1 \<and>
         run_cc_max_workers cpu True MwNone 100 = Some 2 \<and>
         run_cc_max_workers cpu False (MwInt 10) 3 = Some 3 \<and>
         run_cc_max_workers 8 False MwNone 1000 = Some 4"
proof -
  have gpu_path: "run_cc_max_workers cpu True MwNone n = Some (min 2 n)"
    by (simp add: run_cc_max_workers_def calculate_optimal_workers_def)
  have cpu_path:
    "run_cc_max_workers cpu False MwNone n = Some (min (max 1 \<lfloor>0.6 * real cpu\<rfloor>) n)"
    using calculate_optimal_workers_cpu [OF assms(2,3)]
    by (simp add: run_cc_max_workers_def)
  have override:
    "\<exists>w. run_cc_max_workers cpu gpu (MwInt k) n = Some w \<and> 1 \<le> w \<and> w \<le> min 16 n \<and>
         (1 \<le> k \<and> k \<le> min 16 n \<longrightarrow> w = k) \<and> (k < 1 \<longrightarrow> w = 1) \<and>
         (min 16 n < k \<longrightarrow> w = min 16 n)"
    using assms(1) by (auto simp: run_cc_max_workers_def)
  have ex1: "run_cc_max_workers cpu False MwNone 1 = Some 1"
    by (simp add: run_cc_max_workers_def calculate_optimal_workers_def)
  have ex2: "run_cc_max_workers cpu True MwNone 100 = Some 2"
    by (simp add: run_cc_max_workers_def calculate_optimal_workers_def)
  have ex3: "run_cc_max_workers cpu False (MwInt 10) 3 = Some 3"
    by (simp add: run_cc_max_workers_def)
  have "int_float_mul_0_6 8 = 4"
    by (simp add: int_float_mul_0_6_def float_mul_0_6_def double_0_6_def
        round_half_even_def compute_floorlog Let_def)
  then have ex4: "run_cc_max_workers 8 False MwNone 1000 = Some 4"
    by (simp add: run_cc_max_workers_def calculate_optimal_workers_def)
  from gpu_path cpu_path override ex1 ex2 ex3 ex4 show ?thesis by blast
qed

theorem worker_policy_witness:
  "(1::int) \<le> 9 \<and> (1::nat) \<le> 12 \<and> (12::nat) < 2 ^ 50 \<and>
   run_cc_max_workers 12 True MwNone 9 = Some 2 \<and>
   run_cc_max_workers 12 False MwNone 9 = Some 7"
proof -
  have h: "(1::int) \<le> 9" "(1::nat) \<le> 12" "(12::nat) < 2 ^ 50" by simp_all
  have f: "\<lfloor>0.6 * real (12::nat)\<rfloor> = 7" unfolding floor_0_6 by simp
  show ?thesis
    using h f worker_policy [OF h, of True 0] by simp
qed

text \<open>
  C10: without an override, the pool of the inference-only apply operation is
  \<open>min(2, calculate_optimal_workers(n, has_gpu), n)\<close> and so never above 2, for every
  item count, CPU count and GPU availability.
\<close>

theorem apply_cc_workers_at_most_2:
  "\<exists>w. apply_cc_max_workers cpu gpu MwNone n = Some w \<and>
       w = min 2 (min (calculate_optimal_workers cpu n gpu) n) \<and> w \<le> 2"
  by (simp add: apply_cc_max_workers_def)

section \<open>Shared registry (class \<open>ThreadSafeSession\<close>)\<close>

text \<open>
  JSON values as the handlers receive and store them. A float is kept as its literal:
  no handler modelled here computes with one.
\<close>

datatype jval = JNull | JBool bool | JInt int | JFloat string | JStr string | JArr "jval list"

text \<open>
  An uploaded image is \<^verbatim>\<open>{'filename': ..., 'path': ..., 'preview': ...}\<close>. The trained
  pipeline object is opaque; \<open>apply_color_correction\<close> asks it only whether it has the
  attribute \<open>models\<close> and whether \<open>models.has_models()\<close> holds.
\<close>

record image =
  img_filename :: string
  img_path :: string
  img_preview :: string

datatype ColorCorrection = ColorCorrection (has_attr_models: bool) (has_models: bool)

type_synonym settings_record = "string \<rightharpoonup> jval"

text \<open>
  \<open>ThreadSafeSession._data\<close> is a dictionary with a fixed set of keys; it is a record
  here, one field per key, typed by what the module stores under the key. \<open>get(key)\<close>
  is the field selector and \<open>set(key, value)\<close> the field update.
\<close>

record session =
  images :: "image list"
  white_image :: "image option"
  ccm_file :: "string option"
  settings :: "string \<rightharpoonup> settings_record"
  cc_instance :: "ColorCorrection option"
  corrected_images :: "(string \<times> string) list"
  chart_detection :: "jval option"
  last_metrics :: "jval option"
  batch_processed_images :: "result list"
  is_batch_mode :: bool

definition default_ffc :: settings_record where
  "default_ffc = map_of
     [(''manual_crop'', JBool False), (''bins'', JInt 50), (''smooth_window'', JInt 5),
      (''degree'', JInt 3), (''fit_method'', JStr ''pls''), (''interactions'', JBool True),
      (''max_iter'', JInt 1000), (''tol'', JFloat ''1e-8''), (''verbose'', JBool False),
      (''random_seed'', JInt 0), (''get_deltaE'', JBool True)]"

definition default_gc :: settings_record where
  "default_gc = map_of
     [(''max_degree'', JInt 5), (''show'', JBool False), (''get_deltaE'', JBool True)]"

definition default_wb :: settings_record where
  "default_wb = map_of [(''show'', JBool False), (''get_deltaE'', JBool True)]"

definition default_cc :: settings_record where
  "default_cc = map_of
     [(''cc_method'', JStr ''ours''), (''method'', JStr ''Finlayson 2015''),
      (''mtd'', JStr ''pls''), (''degree'', JInt 2), (''max_iterations'', JInt 10000),
      (''random_state'', JInt 0), (''tol'', JFloat ''1e-8''), (''verbose'', JBool False),
      (''param_search'', JBool False), (''show'', JBool False), (''get_deltaE'', JBool True),
      (''n_samples'', JInt 50), (''ncomp'', JInt 1), (''nlayers'', JInt 100),
      (''hidden_layers'', JArr [JInt 64, JInt 32, JInt 16]),
      (''learning_rate'', JFloat ''0.001''), (''batch_size'', JInt 16),
      (''patience'', JInt 10), (''dropout_rate'', JFloat ''0.2''),
      (''optim_type'', JStr ''adam''), (''use_batch_norm'', JBool True)]"

definition default_settings :: "string \<rightharpoonup> settings_record" where
  "default_settings = map_of
     [(''ffc'', default_ffc), (''gc'', default_gc), (''wb'', default_wb), (''cc'', default_cc)]"

text \<open>\<open>ThreadSafeSession.__init__\<close>.\<close>

definition session_init :: session where
  "session_init =
     \<lparr>images = [], white_image = None, ccm_file = None, settings = default_settings,
      cc_instance = None, corrected_images = [], chart_detection = None,
      last_metrics = None, batch_processed_images = [], is_batch_mode = False\<rparr>"


definition append_to_batch_processed_images :: "session \<Rightarrow> result \<Rightarrow> session" where
  "append_to_batch_processed_images self r =
     self\<lparr>batch_processed_images := batch_processed_images self @ [r]\<rparr>"

text \<open>
  \<open>ThreadSafeSession.update(key, value)\<close> works on the raw dictionary: when the key
  holds a dictionary and the value is one, the value is merged into it with
  \<open>dict.update\<close>; otherwise the value replaces what the key held. No handler of the
  module calls it (the settings handler uses \<open>get\<close> and \<open>set\<close>), so it is modelled on
  its own, over slots that hold either a dictionary or something else.
\<close>

datatype 'v slot = DictSlot "string \<rightharpoonup> 'v" | OtherSlot 'v

definition session_update ::
  "(string \<rightharpoonup> 'v slot) \<Rightarrow> string \<Rightarrow> 'v slot \<Rightarrow> (string \<rightharpoonup> 'v slot)" where
  "session_update data key val =
     (case (data key, val) of
        (Some (DictSlot d), DictSlot v) \<Rightarrow> data(key \<mapsto> DictSlot (d ++ v))
      | _ \<Rightarrow> data(key \<mapsto> val))"

section \<open>The process-wide state and the session handlers\<close>

record server =
  parallel_batch_state :: "progress_item BatchState"
  session_data :: session

definition server_init :: server where
  "server_init = \<lparr>parallel_batch_state = BatchState_init, session_data = session_init\<rparr>"




text \<open>
  The body of a \<open>POST /api/settings/<step>\<close>. \<open>NoSettings\<close> is a body that is empty or
  false, or has no key \<open>'settings'\<close> (answer 400); \<open>SettingsDict u\<close> carries the mapping
  \<open>data['settings']\<close>; \<open>SettingsRaises\<close> is a body on which \<^verbatim>\<open>request.json\<close>, the
  subscript or \<open>dict.update\<close> raises (answer 500 through the handler's \<open>except\<close>).
\<close>

datatype http_method = GET | POST

datatype settings_body = NoSettings | SettingsDict settings_record | SettingsRaises

datatype settings_response =
  InvalidStep
| SettingsValue settings_record
| MissingSettings
| SettingsUpdated settings_record
| SettingsError

fun settings_status :: "settings_response \<Rightarrow> nat" where
  "settings_status InvalidStep = 400"
| "settings_status (SettingsValue _) = 200"
| "settings_status MissingSettings = 400"
| "settings_status (SettingsUpdated _) = 200"
| "settings_status SettingsError = 500"

definition valid_steps :: "string list" where
  "valid_steps = [''ffc'', ''gc'', ''wb'', ''cc'']"

definition handle_settings ::
  "string \<Rightarrow> http_method \<Rightarrow> settings_body \<Rightarrow> server \<Rightarrow> settings_response \<times> server" where
  "handle_settings step method body sv =
     (if step \<notin> set valid_steps then (InvalidStep, sv)
      else case method of
        GET \<Rightarrow>
          (case settings (session_data sv) step of
             None \<Rightarrow> (SettingsValue Map.empty, sv)
           | Some rec \<Rightarrow> (SettingsValue rec, sv))
      | POST \<Rightarrow>
          (case body of
             NoSettings \<Rightarrow> (MissingSettings, sv)
           | SettingsRaises \<Rightarrow> (SettingsError, sv)
           | SettingsDict u \<Rightarrow>
               (let current_settings = settings (session_data sv)
                in case current_settings step of
                     None \<Rightarrow> (SettingsError, sv)
                   | Some rec \<Rightarrow>
                       (let current_settings' = current_settings(step \<mapsto> rec ++ u)
                        in (SettingsUpdated (rec ++ u),
                            sv\<lparr>session_data :=
                                 (session_data sv)\<lparr>settings := current_settings'\<rparr>\<rparr>)))))"

section \<open>Properties of the registry\<close>






text \<open>
  C9: for a stage name among \<open>ffc\<close>, \<open>gc\<close>, \<open>wb\<close>, \<open>cc\<close>, an existing settings record
  \<open>old\<close> of that stage and a partial update \<open>upd\<close>, the settings update answers 200 with
  a record \<open>new\<close> that it also stores for the stage; every key of \<open>upd\<close> has the new
  value in \<open>new\<close>, every other key has what \<open>old\<close> had, and the records of the other
  stages and the rest of the state are unchanged.
\<close>

theorem handle_settings_merges:
  assumes "step \<in> {''ffc'', ''gc'', ''wb'', ''cc''}"
    and "settings (session_data sv) step = Some old"
  shows "\<exists>new sv'. handle_settings step POST (SettingsDict upd) sv = (SettingsUpdated new, sv') \<and>
           settings (session_data sv') step = Some new \<and>
           (\<forall>k v. upd k = Some v \<longrightarrow> new k = Some v) \<and>
           (\<forall>k. upd k = None \<longrightarrow> new k = old k) \<and>
           (\<forall>other. other \<noteq> step \<longrightarrow>
              settings (session_data sv') other = settings (session_data sv) other) \<and>
           sv' = sv\<lparr>session_data := (session_data sv)\<lparr>settings := settings (session_data sv')\<rparr>\<rparr>"
proof -
  have valid: "step \<in> set valid_steps" using assms(1) by (auto simp: valid_steps_def)
  let ?sv' = "sv\<lparr>session_data :=
      (session_data sv)\<lparr>settings := (settings (session_data sv))(step \<mapsto> old ++ upd)\<rparr>\<rparr>"
  have run: "handle_settings step POST (SettingsDict upd) sv = (SettingsUpdated (old ++ upd), ?sv')"
    using valid assms(2) by (simp add: handle_settings_def)
  have new_keys: "\<forall>k v. upd k = Some v \<longrightarrow> (old ++ upd) k = Some v"
    by (simp add: map_add_Some_iff)
  have old_keys: "\<forall>k. upd k = None \<longrightarrow> (old ++ upd) k = old k"
    by (simp add: map_add_def)
  show ?thesis
    using run new_keys old_keys by (intro exI [of _ "old ++ upd"] exI [of _ ?sv']) simp
qed

theorem handle_settings_merges_witness:
  "''cc'' \<in> {''ffc'', ''gc'', ''wb'', ''cc''} \<and>
   settings (session_data server_init) ''cc'' = Some default_cc \<and>
   (\<exists>new sv'. handle_settings ''cc'' POST (SettingsDict [''degree'' \<mapsto> JInt 9]) server_init
        = (SettingsUpdated new, sv') \<and>
      settings (session_data sv') ''cc'' = Some new \<and>
      new ''degree'' = Some (JInt 9) \<and> new ''mtd'' = Some (JStr ''pls''))"
proof -
  have h1: "''cc'' \<in> {''ffc'', ''gc'', ''wb'', ''cc''}" by simp
  have h2: "settings (session_data server_init) ''cc'' = Some default_cc"
    by (simp add: server_init_def session_init_def default_settings_def)
  have mtd: "default_cc ''mtd'' = Some (JStr ''pls'')" by (simp add: default_cc_def)
  from handle_settings_merges [OF h1 h2, of "[''degree'' \<mapsto> JInt 9]"]
  obtain new where "\<exists>sv'.
      handle_settings ''cc'' POST (SettingsDict [''degree'' \<mapsto> JInt 9]) server_init
        = (SettingsUpdated new, sv') \<and>
      settings (session_data sv') ''cc'' = Some new \<and>
      (\<forall>k v. [''degree'' \<mapsto> JInt 9] k = Some v \<longrightarrow> new k = Some v) \<and>
      (\<forall>k. [''degree'' \<mapsto> JInt 9] k = None \<longrightarrow> new k = default_cc k) \<and>
      (\<forall>other. other \<noteq> ''cc'' \<longrightarrow>
         settings (session_data sv') other = settings (session_data server_init) other) \<and>
      sv' = server_init\<lparr>session_data :=
              (session_data server_init)\<lparr>settings := settings (session_data sv')\<rparr>\<rparr>"
    by (rule exE)
  then obtain sv' where all:
     "handle_settings ''cc'' POST (SettingsDict [''degree'' \<mapsto> JInt 9]) server_init
        = (SettingsUpdated new, sv') \<and>
      settings (session_data sv') ''cc'' = Some new \<and>
      (\<forall>k v. [''degree'' \<mapsto> JInt 9] k = Some v \<longrightarrow> new k = Some v) \<and>
      (\<forall>k. [''degree'' \<mapsto> JInt 9] k = None \<longrightarrow> new k = default_cc k) \<and>
      (\<forall>other. other \<noteq> ''cc'' \<longrightarrow>
         settings (session_data sv') other = settings (session_data server_init) other) \<and>
      sv' = server_init\<lparr>session_data :=
              (session_data server_init)\<lparr>settings := settings (session_data sv')\<rparr>\<rparr>"
    by (rule exE)
  note r = all [THEN conjunct1] all [THEN conjunct2, THEN conjunct1]
    all [THEN conjunct2, THEN conjunct2, THEN conjunct1]
    all [THEN conjunct2, THEN conjunct2, THEN conjunct2, THEN conjunct1]
  have deg: "new ''degree'' = Some (JInt 9)" using r(3) by simp
  have "[''degree'' \<mapsto> JInt 9] ''mtd'' = None" by simp
  then have "new ''mtd'' = default_cc ''mtd''" using r(4) [THEN spec, of "''mtd''"] by (rule rev_mp)
  then have m: "new ''mtd'' = Some (JStr ''pls'')" using mtd by simp
  have c4: "handle_settings ''cc'' POST (SettingsDict [''degree'' \<mapsto> JInt 9]) server_init
        = (SettingsUpdated new, sv') \<and>
      settings (session_data sv') ''cc'' = Some new \<and>
      new ''degree'' = Some (JInt 9) \<and> new ''mtd'' = Some (JStr ''pls'')"
    using r(1,2) deg m by (intro conjI)
  have ex: "\<exists>new sv'.
      handle_settings ''cc'' POST (SettingsDict [''degree'' \<mapsto> JInt 9]) server_init
        = (SettingsUpdated new, sv') \<and>
      settings (session_data sv') ''cc'' = Some new \<and>
      new ''degree'' = Some (JInt 9) \<and> new ''mtd'' = Some (JStr ''pls'')"
    by (rule exI [of _ new], rule exI [of _ sv'], rule c4)
  show ?thesis by (rule conjI [OF h1 conjI [OF h2 ex]])
qed

lemma session_update_merges:
  assumes "data key = Some (DictSlot d)"
  shows "session_update data key (DictSlot v) key = Some (DictSlot (d ++ v))"
  using assms by (simp add: session_update_def)

section \<open>Batch submission (\<open>run_color_correction_parallel\<close>)\<close>

text \<open>
  What the handlers read from outside the two state objects: the module constant
  \<open>CC_AVAILABLE\<close> (set once at import), the CPU count, the cached GPU probe
  \<open>check_gpu_available()\<close> and the constant \<open>REQUEST_TIMEOUT\<close> (seconds).
\<close>

record env =
  CC_AVAILABLE :: bool
  cpu_count :: nat
  gpu_available :: bool
  REQUEST_TIMEOUT :: nat

text \<open>
  The request body. \<^verbatim>\<open>data = request.json if request.is_json else {}\<close>: \<open>NotJson\<close> gives
  the empty dictionary, \<open>JsonObject\<close> the fields read by the handler (\<open>None\<close> for an
  absent key), and \<open>JsonRaises\<close> is a body on which \<^verbatim>\<open>request.json\<close> or \<^verbatim>\<open>data.get\<close>
  raises (malformed JSON, or JSON that is not an object).
\<close>

record request_data =
  req_image_indices :: "jval option"
  req_method :: "jval option"
  req_max_workers :: max_workers_field

datatype request = NotJson | JsonObject request_data | JsonRaises

definition empty_data :: request_data where
  "empty_data = \<lparr>req_image_indices = None, req_method = None, req_max_workers = MwNone\<rparr>"

text \<open>
  \<^verbatim>\<open>isinstance(index, int)\<close> holds for Python integers and for booleans (\<open>True\<close> is the
  integer 1 in every comparison and subscript that follows); \<open>py_int\<close> gives that
  integer, \<open>None\<close> for every other value.
\<close>

fun py_int :: "jval \<Rightarrow> int option" where
  "py_int (JInt i) = Some i"
| "py_int (JBool b) = Some (if b then 1 else 0)"
| "py_int _ = None"

text \<open>
  \<open>validate_image_index\<close> returns a pair of a flag and a message; the message is only
  logged by its callers, so the three returns are kept as three constructors.
\<close>

datatype index_check = IndexOk | NotAnInteger | OutOfRange

definition validate_image_index :: "jval \<Rightarrow> int \<Rightarrow> index_check" where
  "validate_image_index index total_n =
     (case py_int index of
        None \<Rightarrow> NotAnInteger
      | Some i \<Rightarrow> if i < 0 \<or> i \<ge> total_n then OutOfRange else IndexOk)"

definition valid_methods :: "string list" where
  "valid_methods = [''pls'', ''nn'', ''linear'', ''svm'', ''conventional'']"

definition validate_method :: "jval \<Rightarrow> bool" where
  "validate_method m = (m \<in> set (map JStr valid_methods))"

text \<open>
  \<^verbatim>\<open>for idx in image_indices\<close>: a list yields its elements, a string its characters
  (one-character strings); iterating \<open>null\<close>, a boolean or a number raises \<open>TypeError\<close>.
\<close>

fun py_iter :: "jval \<Rightarrow> jval list option" where
  "py_iter (JArr xs) = Some xs"
| "py_iter (JStr s) = Some (map (\<lambda>c. JStr [c]) s)"
| "py_iter _ = None"

text \<open>The validation loop: invalid indices are logged and dropped.\<close>

fun validate_all :: "jval list \<Rightarrow> int \<Rightarrow> int list" where
  "validate_all [] num_images = []"
| "validate_all (idx # rest) num_images =
     (case (validate_image_index idx num_images, py_int idx) of
        (IndexOk, Some i) \<Rightarrow> i # validate_all rest num_images
      | _ \<Rightarrow> validate_all rest num_images)"

text \<open>
  What the handler hands to the background thread it starts: the closure of
  \<open>process_batch_background\<close> over \<open>validated_indices\<close>, \<open>max_workers\<close>, \<open>batch_id\<close>
  and \<open>images_list\<close>.
\<close>

record job =
  job_batch_id :: string
  job_indices :: "int list"
  job_max_workers :: int
  job_images :: "image list"

datatype submit_response =
  PipelineUnavailable
| BatchInProgress string
| NoImagesLoaded
| NoValidImages
| InvalidMethod
| Accepted string int int bool
| SubmitError

fun submit_status :: "submit_response \<Rightarrow> nat" where
  "submit_status PipelineUnavailable = 503"
| "submit_status (BatchInProgress _) = 409"
| "submit_status NoImagesLoaded = 400"
| "submit_status NoValidImages = 400"
| "submit_status InvalidMethod = 400"
| "submit_status (Accepted _ _ _ _) = 202"
| "submit_status SubmitError = 500"

text \<open>
  The handler after the admission check. \<open>new_id\<close> is what \<open>generate_batch_id()\<close>
  returns. Reading the white image and assembling \<open>config_dict\<close> touch neither state
  object and are left out; the configuration reaches the model only through what the
  pipeline does with an item (see \<open>execution\<close> below).
\<close>

definition submit_data ::
  "env \<Rightarrow> string \<Rightarrow> request_data \<Rightarrow> server \<Rightarrow> submit_response \<times> server \<times> job option" where
  "submit_data e new_id data sv =
     (let images_list = images (session_data sv) in
      if images_list = [] then (NoImagesLoaded, sv, None)
      else
        case py_iter (case req_image_indices data of None \<Rightarrow> JArr [] | Some v \<Rightarrow> v) of
          None \<Rightarrow> (SubmitError, sv, None)
        | Some image_indices \<Rightarrow>
            (let num_images = int (length images_list);
                 validated_indices = validate_all image_indices num_images
             in if validated_indices = [] then (NoValidImages, sv, None)
                else if \<not> validate_method
                            (case req_method data of None \<Rightarrow> JStr ''pls'' | Some m \<Rightarrow> m)
                then (InvalidMethod, sv, None)
                else
                  case run_cc_max_workers (cpu_count e) (gpu_available e)
                         (req_max_workers data) (int (length validated_indices)) of
                    None \<Rightarrow> (SubmitError, sv, None)
                  | Some max_workers \<Rightarrow>
                      (let filenames =
                             map (\<lambda>i. img_filename (images_list ! nat i)) validated_indices;
                           bs' = reset (parallel_batch_state sv) new_id
                                   (int (length validated_indices)) validated_indices filenames;
                           sv' = sv\<lparr>parallel_batch_state := bs',
                                    session_data := (session_data sv)\<lparr>is_batch_mode := True\<rparr>\<rparr>
                       in (Accepted new_id (int (length validated_indices)) max_workers
                             (gpu_available e),
                           sv',
                           Some \<lparr>job_batch_id = new_id, job_indices = validated_indices,
                                 job_max_workers = max_workers,
                                 job_images = images_list\<rparr>))))"

definition run_color_correction_parallel ::
  "env \<Rightarrow> string \<Rightarrow> request \<Rightarrow> server \<Rightarrow> submit_response \<times> server \<times> job option" where
  "run_color_correction_parallel e new_id req sv =
     (if \<not> CC_AVAILABLE e then (PipelineUnavailable, sv, None)
      else if is_active (parallel_batch_state sv)
      then (BatchInProgress (batch_id (parallel_batch_state sv)), sv, None)
      else case req of
             JsonRaises \<Rightarrow> (SubmitError, sv, None)
           | NotJson \<Rightarrow> submit_data e new_id empty_data sv
           | JsonObject data \<Rightarrow> submit_data e new_id data sv)"

subsection \<open>Admission\<close>

lemma validate_all_in_range:
  "i \<in> set (validate_all xs n) \<Longrightarrow> 0 \<le> i \<and> i < n"
  by (induction xs) (auto simp: validate_image_index_def split: option.splits if_splits)

lemma submit_unavailable:
  "\<not> CC_AVAILABLE e \<Longrightarrow>
   run_color_correction_parallel e new_id req sv = (PipelineUnavailable, sv, None)"
  by (simp add: run_color_correction_parallel_def)

lemma submit_while_active_state_unchanged:
  "active (parallel_batch_state sv) \<Longrightarrow>
   fst (snd (run_color_correction_parallel e new_id req sv)) = sv"
  by (simp add: run_color_correction_parallel_def is_active_def)

lemma submit_accepted_activates:
  assumes "run_color_correction_parallel e new_id req sv = (Accepted b n w g, sv', j)"
  shows "CC_AVAILABLE e \<and> \<not> active (parallel_batch_state sv) \<and>
         active (parallel_batch_state sv') \<and> batch_id (parallel_batch_state sv') = new_id \<and>
         total' (parallel_batch_state sv') = n \<and> 1 \<le> n \<and>
         int (length (progress (parallel_batch_state sv'))) = n"
  using assms
  by (auto simp: run_color_correction_parallel_def submit_data_def is_active_def reset_def
      Let_def Suc_le_eq split: if_splits request.splits option.splits)

text \<open>
  The states the server can be in: \<open>reset\<close> is called by this handler only, and every
  other operation on the batch state or the registry leaves \<open>active\<close> as it is or
  clears it. So a batch is active only in a process where the pipeline library was
  importable.
\<close>

inductive server_reach :: "env \<Rightarrow> server \<Rightarrow> bool" for e :: env where
  started: "server_reach e server_init"
| submitted:
    "server_reach e sv \<Longrightarrow>
     server_reach e (fst (snd (run_color_correction_parallel e new_id req sv)))"
| status_updated:
    "server_reach e sv \<Longrightarrow>
     server_reach e
       (sv\<lparr>parallel_batch_state := update_status (parallel_batch_state sv) idx st err\<rparr>)"
| result_added:
    "server_reach e sv \<Longrightarrow>
     server_reach e (sv\<lparr>parallel_batch_state := add_result (parallel_batch_state sv) r\<rparr>)"
| marked_complete:
    "server_reach e sv \<Longrightarrow>
     server_reach e (sv\<lparr>parallel_batch_state := mark_complete (parallel_batch_state sv)\<rparr>)"
| session_changed:
    "server_reach e sv \<Longrightarrow> server_reach e (sv\<lparr>session_data := ss\<rparr>)"

lemma active_only_if_available:
  assumes "server_reach e sv" and "active (parallel_batch_state sv)"
  shows "CC_AVAILABLE e"
  using assms
proof (induction rule: server_reach.induct)
  case started
  then show ?case by (simp add: server_init_def BatchState_init_def)
next
  case (submitted sv new_id req)
  show ?case
  proof (rule ccontr)
    assume "\<not> CC_AVAILABLE e"
    then have "fst (snd (run_color_correction_parallel e new_id req sv)) = sv"
      by (simp add: submit_unavailable)
    then show False using submitted \<open>\<not> CC_AVAILABLE e\<close> by simp
  qed
next
  case (status_updated sv idx st err)
  then show ?case by (simp add: update_status_def Let_def split: if_splits)
next
  case (result_added sv r)
  then show ?case by (simp add: add_result_def)
next
  case (marked_complete sv)
  then show ?case by (simp add: mark_complete_def)
next
  case (session_changed sv ss)
  then show ?case by simp
qed

text \<open>
  C1: a submission made while the batch state's \<open>active\<close> flag is true is answered
  with the conflict response (HTTP 409) carrying the id of the batch in progress; no
  background job is started and the whole state, hence every field of the batch state,
  is unchanged. The pipeline library is taken to be importable (\<open>CC_AVAILABLE\<close>): when
  it is not, the handler answers 503 before the admission check and never changes the
  state (\<open>submit_unavailable\<close>), so no batch is ever active
  (\<open>active_only_if_available\<close>).
\<close>

theorem submit_while_active_conflict:
  assumes "active (parallel_batch_state sv)" and "CC_AVAILABLE e"
  shows "run_color_correction_parallel e new_id req sv
           = (BatchInProgress (batch_id (parallel_batch_state sv)), sv, None) \<and>
         submit_status (fst (run_color_correction_parallel e new_id req sv)) = 409"
  using assms by (simp add: run_color_correction_parallel_def is_active_def)

definition example_env :: env where
  "example_env = \<lparr>CC_AVAILABLE = True, cpu_count = 8, gpu_available = False,
                    REQUEST_TIMEOUT = 300\<rparr>"

definition example_images :: "image list" where
  "example_images =
     [\<lparr>img_filename = ''a.png'', img_path = ''uploads/a.png'', img_preview = []\<rparr>,
      \<lparr>img_filename = ''b.png'', img_path = ''uploads/b.png'', img_preview = []\<rparr>]"

definition example_server :: server where
  "example_server = server_init\<lparr>session_data := session_init\<lparr>images := example_images\<rparr>\<rparr>"

definition example_request :: request where
  "example_request =
     JsonObject \<lparr>req_image_indices = Some (JArr [JInt 1, JInt 7, JStr ''0'', JInt 0]),
                 req_method = None, req_max_workers = MwNone\<rparr>"

lemma example_submission:
  "run_color_correction_parallel example_env ''batch_1'' example_request example_server
     = (Accepted ''batch_1'' 2 2 False,
        example_server
          \<lparr>parallel_batch_state :=
             \<lparr>batch_id = ''batch_1'', active = True,
              progress =
                [\<lparr>image_index = 1, filename = ''b.png'', status = ''pending'', error = None\<rparr>,
                 \<lparr>image_index = 0, filename = ''a.png'', status = ''pending'', error = None\<rparr>],
              results = [], total' = 2, completed = 0, failed = 0\<rparr>,
           session_data := (session_data example_server)\<lparr>is_batch_mode := True\<rparr>\<rparr>,
        Some \<lparr>job_batch_id = ''batch_1'', job_indices = [1, 0], job_max_workers = 2,
              job_images = example_images\<rparr>)"
proof -
  have w: "int_float_mul_0_6 8 = 4"
    by (simp add: int_float_mul_0_6_def float_mul_0_6_def double_0_6_def
        round_half_even_def compute_floorlog Let_def)
  show ?thesis
    by (simp add: run_color_correction_parallel_def submit_data_def example_env_def
        example_request_def example_server_def example_images_def server_init_def
        session_init_def BatchState_init_def is_active_def validate_image_index_def
        validate_method_def valid_methods_def run_cc_max_workers_def
        calculate_optimal_workers_def w reset_def pending_item_def Let_def)
qed

definition active_server :: server where
  "active_server =
     fst (snd (run_color_correction_parallel example_env ''batch_1'' example_request
                 example_server))"

lemma active_server_batch:
  "active (parallel_batch_state active_server) \<and>
   batch_id (parallel_batch_state active_server) = ''batch_1''"
  by (simp add: active_server_def example_submission)

theorem submit_while_active_conflict_witness:
  "active (parallel_batch_state active_server) \<and> CC_AVAILABLE example_env \<and>
   run_color_correction_parallel example_env ''batch_2'' example_request active_server
     = (BatchInProgress ''batch_1'', active_server, None)"
proof -
  have h1: "active (parallel_batch_state active_server)"
    using active_server_batch by simp
  have h2: "CC_AVAILABLE example_env" by (simp add: example_env_def)
  show ?thesis
    using h1 h2 active_server_batch
      submit_while_active_conflict [OF h1 h2, of "''batch_2''" example_request]
    by simp
qed

section \<open>Item execution (\<open>process_single_image_with_timeout\<close>)\<close>

text \<open>
  What happens to one item is decided by collaborators outside this module (image
  decoding, the correction pipeline, encoding). An \<open>execution\<close> records it: which of
  the function's exits is taken and how many seconds the call runs.
  \<^item> \<open>LoadFails\<close>: \<^verbatim>\<open>cv2.imread\<close> returns \<open>None\<close>, so \<open>load_image\<close> raises
    \<^verbatim>\<open>ValueError(f"Failed to load image: {path}")\<close>, caught by the outer \<open>except\<close>;
  \<^item> \<open>PipelineRaises e\<close>: \<^verbatim>\<open>cc.run\<close> raises an exception with message \<open>e\<close>;
  \<^item> \<open>OtherRaises e\<close>: another call inside the outer \<open>try\<close> raises;
  \<^item> \<open>PipelineReturns imgs\<close>: the pipeline returns; \<open>imgs\<close> is the list
    \<open>result_images\<close> of names and encoded data that the function builds.
\<close>

datatype pipeline_outcome =
  LoadFails
| PipelineRaises string
| OtherRaises string
| PipelineReturns "(string \<times> string) list"

record execution =
  outcome :: pipeline_outcome
  seconds :: nat

text \<open>
  The function has a parameter \<open>timeout\<close> (default \<open>REQUEST_TIMEOUT\<close>); its body never
  reads it, and nothing in the body depends on how long a call takes.
\<close>

definition process_single_image_with_timeout ::
  "int \<Rightarrow> string \<Rightarrow> string \<Rightarrow> nat \<Rightarrow> execution \<Rightarrow> result" where
  "process_single_image_with_timeout image_idx image_path image_filename timeout ex =
     (case outcome ex of
        LoadFails \<Rightarrow>
          Failure image_idx image_filename
            (''Error processing '' @ image_filename @ '': Failed to load image: '' @ image_path)
      | PipelineRaises e \<Rightarrow>
          Failure image_idx image_filename (''Pipeline error: '' @ e)
      | OtherRaises e \<Rightarrow>
          Failure image_idx image_filename (''Error processing '' @ image_filename @ '': '' @ e)
      | PipelineReturns result_images \<Rightarrow>
          Success image_idx image_filename result_images image_path)"

section \<open>The background fan-out (\<open>process_batch_background\<close>)\<close>

text \<open>
  A future of \<^verbatim>\<open>concurrent.futures\<close>: still running, with the seconds left until it
  ends and how it will end, or completed. \<open>Future.result(timeout)\<close> returns at once on
  a completed future; on a running one it waits up to \<open>timeout\<close> seconds and raises
  \<open>TimeoutError\<close> when the call has not ended by then.
\<close>

datatype ending = Returns result | Throws string

datatype future = Running nat ending | Completed ending

datatype waited = Returned result | TimedOut | Raises string

fun ended_as :: "ending \<Rightarrow> waited" where
  "ended_as (Returns r) = Returned r"
| "ended_as (Throws e) = Raises e"

fun future_result :: "nat \<Rightarrow> future \<Rightarrow> waited" where
  "future_result timeout (Completed en) = ended_as en"
| "future_result timeout (Running left en) =
     (if left \<le> timeout then ended_as en else TimedOut)"

text \<open>Decimal digits of a number, for \<^verbatim>\<open>f"Processing timeout after {REQUEST_TIMEOUT}s"\<close>.\<close>

function str_of_nat :: "nat \<Rightarrow> string" where
  "str_of_nat n =
     (if n < 10 then [''0123456789'' ! n]
      else str_of_nat (n div 10) @ [''0123456789'' ! (n mod 10)])"
  by pat_completeness auto
termination
  by (relation "measure id") auto

declare str_of_nat.simps [simp del]

text \<open>
  The body of the \<^verbatim>\<open>for future in as_completed(futures)\<close> loop, on the batch state:
  one terminal \<open>update_status\<close> in each of its four branches, and \<open>add_result\<close> after
  the one for success.
\<close>

definition fan_in_bs ::
  "nat \<Rightarrow> progress_item BatchState \<Rightarrow> int \<Rightarrow> future \<Rightarrow> progress_item BatchState" where
  "fan_in_bs timeout bs idx fut =
     (case future_result timeout fut of
        Returned r \<Rightarrow>
          (if success r then add_result (update_status bs idx ''completed'' None) r
           else update_status bs idx ''failed'' (Some (r_error r)))
      | TimedOut \<Rightarrow>
          update_status bs idx ''failed''
            (Some (''Processing timeout after '' @ str_of_nat timeout @ ''s''))
      | Raises e \<Rightarrow> update_status bs idx ''failed'' (Some e))"

text \<open>On success the result is also appended to \<open>batch_processed_images\<close>.\<close>

definition fan_in_session :: "nat \<Rightarrow> session \<Rightarrow> future \<Rightarrow> session" where
  "fan_in_session timeout ss fut =
     (case future_result timeout fut of
        Returned r \<Rightarrow> (if success r then append_to_batch_processed_images ss r else ss)
      | _ \<Rightarrow> ss)"

definition fan_in :: "nat \<Rightarrow> int \<times> future \<Rightarrow> server \<Rightarrow> server" where
  "fan_in timeout = (\<lambda>(idx, fut) sv.
     sv\<lparr>parallel_batch_state := fan_in_bs timeout (parallel_batch_state sv) idx fut,
        session_data := fan_in_session timeout (session_data sv) fut\<rparr>)"

text \<open>
  \<open>as_completed(futures)\<close> yields each future once it has completed. Its argument here
  is the list of submitted calls in the order in which they end, each with its
  \<open>execution\<close>; the pool runs every call to its end, however long that takes, and the
  callable catches every exception, so each future is completed with a returned
  dictionary.
\<close>

definition as_completed :: "nat \<Rightarrow> image list \<Rightarrow> (int \<times> execution) list \<Rightarrow> (int \<times> future) list"
  where
  "as_completed timeout images_list ended =
     map (\<lambda>(idx, ex).
            (idx, Completed (Returns
               (process_single_image_with_timeout idx
                  (img_path (images_list ! nat idx)) (img_filename (images_list ! nat idx))
                  timeout ex))))
         ended"

definition queue_all :: "int list \<Rightarrow> server \<Rightarrow> server" where
  "queue_all idxs sv =
     fold (\<lambda>idx s. s\<lparr>parallel_batch_state :=
                       update_status (parallel_batch_state s) idx ''queued'' None\<rparr>) idxs sv"

text \<open>
  The background thread when no exception escapes its loops: every index is submitted
  and marked \<open>queued\<close>, the futures are handled in the order they complete, and the
  \<open>finally\<close> block marks the batch complete and leaves batch mode.
\<close>

definition process_batch_background ::
  "env \<Rightarrow> job \<Rightarrow> (int \<times> execution) list \<Rightarrow> server \<Rightarrow> server" where
  "process_batch_background e j ended sv =
     (let sv1 = queue_all (job_indices j) sv;
          sv2 = fold (fan_in (REQUEST_TIMEOUT e))
                  (as_completed (REQUEST_TIMEOUT e) (job_images j) ended) sv1
      in sv2\<lparr>parallel_batch_state := mark_complete (parallel_batch_state sv2),
             session_data := (session_data sv2)\<lparr>is_batch_mode := False\<rparr>\<rparr>)"

text \<open>
  Every state the thread can pass through, on the batch state alone and with the
  exceptional exits: \<open>o_todo\<close> are the indices still to submit, \<open>o_futures\<close> the
  submitted calls not yet yielded by \<open>as_completed\<close>, which may complete in any order
  and end in any way. An exception escaping either loop (\<open>executor.submit\<close> raising,
  for one) leads through the \<open>finally\<close> block to \<open>Aborted\<close>.
\<close>

datatype phase = Submitting | Awaiting | Finished | Aborted

record orch =
  o_state :: "progress_item BatchState"
  o_phase :: phase
  o_todo :: "int list"
  o_futures :: "int list"

inductive orch_reach ::
  "nat \<Rightarrow> string \<Rightarrow> int list \<Rightarrow> string list \<Rightarrow> progress_item BatchState \<Rightarrow> orch \<Rightarrow> bool"
  for timeout :: nat and bid :: string and idxs :: "int list" and fnames :: "string list"
    and bs0 :: "progress_item BatchState"
  where
    admitted:
      "orch_reach timeout bid idxs fnames bs0
         \<lparr>o_state = reset bs0 bid (int (length idxs)) idxs fnames,
          o_phase = Submitting, o_todo = idxs, o_futures = []\<rparr>"
  | queued:
      "orch_reach timeout bid idxs fnames bs0 s \<Longrightarrow> o_phase s = Submitting \<Longrightarrow>
       o_todo s = idx # rest \<Longrightarrow>
       orch_reach timeout bid idxs fnames bs0
         (s\<lparr>o_state := update_status (o_state s) idx ''queued'' None,
            o_todo := rest, o_futures := o_futures s @ [idx]\<rparr>)"
  | all_submitted:
      "orch_reach timeout bid idxs fnames bs0 s \<Longrightarrow> o_phase s = Submitting \<Longrightarrow>
       o_todo s = [] \<Longrightarrow>
       orch_reach timeout bid idxs fnames bs0 (s\<lparr>o_phase := Awaiting\<rparr>)"
  | resolved:
      "orch_reach timeout bid idxs fnames bs0 s \<Longrightarrow> o_phase s = Awaiting \<Longrightarrow>
       idx \<in> set (o_futures s) \<Longrightarrow>
       orch_reach timeout bid idxs fnames bs0
         (s\<lparr>o_state := fan_in_bs timeout (o_state s) idx fut,
            o_futures := remove1 idx (o_futures s)\<rparr>)"
  | finished:
      "orch_reach timeout bid idxs fnames bs0 s \<Longrightarrow> o_phase s = Awaiting \<Longrightarrow>
       o_futures s = [] \<Longrightarrow>
       orch_reach timeout bid idxs fnames bs0
         (s\<lparr>o_state := mark_complete (o_state s), o_phase := Finished\<rparr>)"
  | aborted:
      "orch_reach timeout bid idxs fnames bs0 s \<Longrightarrow>
       o_phase s = Submitting \<or> o_phase s = Awaiting \<Longrightarrow>
       orch_reach timeout bid idxs fnames bs0
         (s\<lparr>o_state := mark_complete (o_state s), o_phase := Aborted\<rparr>)"

subsection \<open>Counters\<close>

lemma update_status_counters:
  "completed (update_status bs idx st err)
     = completed bs + (if st = ''completed'' then 1 else 0)"
  "failed (update_status bs idx st err) = failed bs + (if st = ''failed'' then 1 else 0)"
  "total' (update_status bs idx st err) = total' bs"
  "active (update_status bs idx st err) = active bs"
  by (simp_all add: update_status_def Let_def)

lemma fan_in_bs_counters:
  "completed (fan_in_bs t bs idx fut) + failed (fan_in_bs t bs idx fut)
     = completed bs + failed bs + 1"
  "total' (fan_in_bs t bs idx fut) = total' bs"
  "active (fan_in_bs t bs idx fut) = active bs"
  by (simp_all add: fan_in_bs_def add_result_def update_status_counters split: waited.splits)

lemma orch_invariant:
  assumes "orch_reach timeout bid idxs fnames bs0 s"
  shows "completed (o_state s) + failed (o_state s)
           + int (length (o_todo s)) + int (length (o_futures s)) = total' (o_state s) \<and>
         0 \<le> completed (o_state s) \<and> 0 \<le> failed (o_state s) \<and>
         (active (o_state s) \<longleftrightarrow> o_phase s = Submitting \<or> o_phase s = Awaiting) \<and>
         (o_phase s = Submitting \<longrightarrow> completed (o_state s) = 0 \<and> failed (o_state s) = 0) \<and>
         (o_phase s = Awaiting \<longrightarrow> o_todo s = []) \<and>
         (o_phase s = Finished \<longrightarrow> o_todo s = [] \<and> o_futures s = [])"
  using assms
proof (induction rule: orch_reach.induct)
  case admitted
  show ?case by (simp add: reset_def)
next
  case (queued s idx rest)
  then show ?case by (auto simp: update_status_counters)
next
  case (all_submitted s)
  then show ?case by auto
next
  case (resolved s idx fut)
  have len: "int (length (remove1 idx (o_futures s))) = int (length (o_futures s)) - 1"
  proof -
    have "0 < length (o_futures s)" using resolved.hyps(3) by (rule length_pos_if_in_set)
    then show ?thesis using resolved.hyps(3) by (simp add: length_remove1 of_nat_diff Suc_le_eq)
  qed
  have c: "0 \<le> completed (fan_in_bs timeout (o_state s) idx fut)"
    and f: "0 \<le> failed (fan_in_bs timeout (o_state s) idx fut)"
    using resolved.IH
    by (auto simp: fan_in_bs_def add_result_def update_status_counters split: waited.splits)
  show ?case
    using resolved.IH resolved.hyps(2) len c f fan_in_bs_counters [of timeout "o_state s" idx fut]
    by auto
next
  case (finished s)
  then show ?case by (auto simp: mark_complete_def)
next
  case (aborted s)
  then show ?case by (auto simp: mark_complete_def)
qed

text \<open>
  Two states of the one-item batch \<open>[0]\<close>: after its only future has resolved with
  success and before \<open>mark_complete\<close>; and after an exception aborted the submission
  loop before anything was submitted.
\<close>

definition ok_result :: result where
  "ok_result = Success 0 ''a.png'' [(''a_CC'', ''data'')] ''uploads/a.png''"

definition resolved_state :: orch where
  "resolved_state =
     \<lparr>o_state =
        \<lparr>batch_id = ''batch_1'', active = True,
         progress = [\<lparr>image_index = 0, filename = ''a.png'', status = ''completed'',
                      error = None\<rparr>],
         results = [ok_result], total' = 1, completed = 1, failed = 0\<rparr>,
      o_phase = Awaiting, o_todo = [], o_futures = []\<rparr>"

definition aborted_state :: orch where
  "aborted_state =
     \<lparr>o_state =
        \<lparr>batch_id = ''batch_1'', active = False,
         progress = [\<lparr>image_index = 0, filename = ''a.png'', status = ''pending'',
                      error = None\<rparr>],
         results = [], total' = 1, completed = 0, failed = 0\<rparr>,
      o_phase = Aborted, o_todo = [0], o_futures = []\<rparr>"

lemma resolved_state_reachable:
  "orch_reach 300 ''batch_1'' [0] [''a.png''] BatchState_init resolved_state"
proof -
  note r0 = orch_reach.admitted [of 300 "''batch_1''" "[0]" "[''a.png'']" BatchState_init]
  note r1 = orch_reach.queued [OF r0, of 0 "[]", simplified]
  note r2 = orch_reach.all_submitted [OF r1, simplified]
  note r3 = orch_reach.resolved [OF r2, of 0 "Completed (Returns ok_result)", simplified]
  show ?thesis
    using r3
    by (simp add: resolved_state_def fan_in_bs_def ok_result_def add_result_def
        update_status_def reset_def BatchState_init_def pending_item_def)
qed

lemma aborted_state_reachable:
  "orch_reach 300 ''batch_1'' [0] [''a.png''] BatchState_init aborted_state"
proof -
  note r0 = orch_reach.admitted [of 300 "''batch_1''" "[0]" "[''a.png'']" BatchState_init]
  note r1 = orch_reach.aborted [OF r0, simplified]
  show ?thesis
    using r1
    by (simp add: aborted_state_def mark_complete_def reset_def BatchState_init_def
        pending_item_def)
qed

text \<open>
  C3 (as stated, refuted): equality of \<open>completed + failed\<close> with \<open>total\<close> does not
  coincide with \<open>active = false\<close>. The batch \<open>[0]\<close> reaches a state where its only item
  is completed (1 + 0 = 1) while \<open>active\<close> is still true, since \<open>mark_complete\<close> runs
  only afterwards in the \<open>finally\<close> block; and when the submission loop is aborted the
  guaranteed teardown leaves \<open>active = false\<close> with 0 + 0 < 1.
\<close>

theorem equality_not_iff_inactive:
  "orch_reach 300 ''batch_1'' [0] [''a.png''] BatchState_init resolved_state \<and>
   completed (o_state resolved_state) + failed (o_state resolved_state)
     = total' (o_state resolved_state) \<and>
   active (o_state resolved_state) \<and>
   orch_reach 300 ''batch_1'' [0] [''a.png''] BatchState_init aborted_state \<and>
   completed (o_state aborted_state) + failed (o_state aborted_state)
     < total' (o_state aborted_state) \<and>
   \<not> active (o_state aborted_state)"
  using resolved_state_reachable aborted_state_reachable
  by (simp add: resolved_state_def aborted_state_def)

text \<open>
  C3 (amended): in every state reachable by the orchestrator's operations on one
  admitted batch, \<open>completed + failed \<le> total\<close>, with equality if and only if every
  admitted item has been resolved (nothing is left to submit and no future is
  outstanding); \<open>active\<close> is false exactly once \<open>mark_complete\<close> has run in the
  teardown; and when the teardown follows a fan-in loop that ran to its end, the batch
  is inactive with \<open>completed + failed = total\<close>.
\<close>

theorem batch_counters:
  assumes "orch_reach timeout bid idxs fnames bs0 s"
  shows "completed (o_state s) + failed (o_state s) \<le> total' (o_state s) \<and>
         (completed (o_state s) + failed (o_state s) = total' (o_state s)
            \<longleftrightarrow> o_todo s = [] \<and> o_futures s = []) \<and>
         (active (o_state s) \<longleftrightarrow> o_phase s = Submitting \<or> o_phase s = Awaiting) \<and>
         (o_phase s = Finished \<longrightarrow>
            \<not> active (o_state s) \<and>
            completed (o_state s) + failed (o_state s) = total' (o_state s))"
proof -
  note inv = orch_invariant [OF assms]
  have sum: "completed (o_state s) + failed (o_state s)
               + int (length (o_todo s)) + int (length (o_futures s)) = total' (o_state s)"
    using inv by simp
  have le: "completed (o_state s) + failed (o_state s) \<le> total' (o_state s)"
    using sum by linarith
  have eq: "completed (o_state s) + failed (o_state s) = total' (o_state s)
              \<longleftrightarrow> o_todo s = [] \<and> o_futures s = []"
  proof
    assume "completed (o_state s) + failed (o_state s) = total' (o_state s)"
    then have "int (length (o_todo s)) + int (length (o_futures s)) = 0"
      using sum by linarith
    then have "length (o_todo s) = 0 \<and> length (o_futures s) = 0" by linarith
    then show "o_todo s = [] \<and> o_futures s = []" by simp
  next
    assume "o_todo s = [] \<and> o_futures s = []"
    then show "completed (o_state s) + failed (o_state s) = total' (o_state s)"
      using sum by simp
  qed
  have act: "active (o_state s) \<longleftrightarrow> o_phase s = Submitting \<or> o_phase s = Awaiting"
    using inv by simp
  have fin: "o_phase s = Finished \<longrightarrow>
      \<not> active (o_state s) \<and> completed (o_state s) + failed (o_state s) = total' (o_state s)"
    using inv eq by auto
  show ?thesis using le eq act fin by blast
qed

theorem batch_counters_witness:
  "orch_reach 300 ''batch_1'' [0] [''a.png''] BatchState_init
     (resolved_state\<lparr>o_state := mark_complete (o_state resolved_state),
                      o_phase := Finished\<rparr>) \<and>
   completed (mark_complete (o_state resolved_state))
     + failed (mark_complete (o_state resolved_state))
     = total' (mark_complete (o_state resolved_state)) \<and>
   \<not> active (mark_complete (o_state resolved_state))"
proof -
  have r: "orch_reach 300 ''batch_1'' [0] [''a.png''] BatchState_init
     (resolved_state\<lparr>o_state := mark_complete (o_state resolved_state),
                      o_phase := Finished\<rparr>)"
    by (rule orch_reach.finished [OF resolved_state_reachable])
       (simp_all add: resolved_state_def)
  show ?thesis
    using r batch_counters [OF r] by simp
qed

subsection \<open>Timeouts\<close>

lemma str_of_nat_300: "str_of_nat 300 = ''300''"
  by (simp add: str_of_nat.simps)

text \<open>
  The timeout branch of the fan-in loop, had it been taken, records a reason that
  names the timeout; waiting on a call that is still running past the timeout takes it.
\<close>

lemma timeout_branch_reason:
  "future_result 300 (Running 301 en) = TimedOut \<and>
   progress (fan_in_bs 300 (reset BatchState_init ''batch_1'' 1 [0] [''a.png'']) 0
               (Running 301 en))
     = [\<lparr>image_index = 0, filename = ''a.png'', status = ''failed'',
         error = Some ''Processing timeout after 300s''\<rparr>]"
  by (simp add: fan_in_bs_def update_status_def reset_def BatchState_init_def pending_item_def
      str_of_nat_300)

text \<open>
  But the loop only ever waits on futures that \<open>as_completed\<close> has yielded, and those
  have completed: the wait never times out, whatever the timeout and however long the
  call ran.
\<close>

lemma as_completed_never_times_out:
  "f \<in> set (as_completed t images_list ended) \<Longrightarrow> future_result t' (snd f) \<noteq> TimedOut"
  by (auto simp: as_completed_def)

lemma fan_in_success_ignores_duration:
  assumes "outcome ex = PipelineReturns imgs"
  shows "fan_in_bs t bs idx
           (Completed (Returns (process_single_image_with_timeout idx path fname t ex)))
         = add_result (update_status bs idx ''completed'' None) (Success idx fname imgs path)"
  using assms by (simp add: fan_in_bs_def process_single_image_with_timeout_def)

definition example_job :: job where
  "example_job = \<lparr>job_batch_id = ''batch_1'', job_indices = [1, 0], job_max_workers = 2,
                    job_images = example_images\<rparr>"

definition quick_execution :: execution where
  "quick_execution = \<lparr>outcome = PipelineReturns [(''b_CC'', ''data'')], seconds = 2\<rparr>"

definition slow_execution :: execution where
  "slow_execution = \<lparr>outcome = PipelineReturns [(''a_CC'', ''data'')], seconds = 301\<rparr>"

lemma active_server_eq:
  "active_server =
     example_server
       \<lparr>parallel_batch_state :=
          \<lparr>batch_id = ''batch_1'', active = True,
           progress =
             [\<lparr>image_index = 1, filename = ''b.png'', status = ''pending'', error = None\<rparr>,
              \<lparr>image_index = 0, filename = ''a.png'', status = ''pending'', error = None\<rparr>],
           results = [], total' = 2, completed = 0, failed = 0\<rparr>,
        session_data := (session_data example_server)\<lparr>is_batch_mode := True\<rparr>\<rparr>"
  by (simp add: active_server_def example_submission)

text \<open>
  C4 (the code at the failing input): the batch admitted by \<open>example_submission\<close>, with
  \<open>REQUEST_TIMEOUT = 300\<close>; item 1 succeeds after 2 seconds and item 0 succeeds after
  301 seconds. Item 0 exceeded the timeout, yet the batch ends with both items
  \<open>completed\<close>, no error recorded and \<open>failed = 0\<close>.
\<close>

theorem slow_item_ends_completed:
  "REQUEST_TIMEOUT example_env < seconds slow_execution \<and>
   progress (parallel_batch_state
      (process_batch_background example_env example_job
         [(1, quick_execution), (0, slow_execution)] active_server))
     = [\<lparr>image_index = 1, filename = ''b.png'', status = ''completed'', error = None\<rparr>,
        \<lparr>image_index = 0, filename = ''a.png'', status = ''completed'', error = None\<rparr>] \<and>
   completed (parallel_batch_state
      (process_batch_background example_env example_job
         [(1, quick_execution), (0, slow_execution)] active_server)) = 2 \<and>
   failed (parallel_batch_state
      (process_batch_background example_env example_job
         [(1, quick_execution), (0, slow_execution)] active_server)) = 0 \<and>
   \<not> active (parallel_batch_state
      (process_batch_background example_env example_job
         [(1, quick_execution), (0, slow_execution)] active_server))"
  by (simp add: process_batch_background_def queue_all_def as_completed_def fan_in_def
      fan_in_bs_def fan_in_session_def process_single_image_with_timeout_def
      example_env_def example_job_def example_images_def quick_execution_def
      slow_execution_def active_server_eq update_status_def add_result_def
      mark_complete_def append_to_batch_processed_images_def Let_def)

section \<open>Snapshots and sharing (\<open>BatchState.get_status\<close>)\<close>

text \<open>
  In Python the entries of \<open>progress\<close> are dictionary objects and the list holds
  references to them. To see what a snapshot shares with the state, the dictionaries
  live in a store, addressed by numbers, and \<open>progress\<close> is a list of addresses.
  \<open>reset\<close> creates one new dictionary per item; \<open>update_status\<close> assigns to the keys of
  the dictionary it finds, in place; \<open>get_status\<close> (defined above for any element type)
  copies the list of addresses.
\<close>

type_synonym addr = nat

type_synonym store = "addr \<Rightarrow> progress_item"

record ref_state =
  objects :: store
  next_addr :: addr
  bstate :: "addr BatchState"

definition ref_init :: ref_state where
  "ref_init =
     \<lparr>objects = (\<lambda>_. \<lparr>image_index = 0, filename = [], status = [], error = None\<rparr>),
      next_addr = 0, bstate = BatchState_init\<rparr>"

definition reset_ref ::
  "ref_state \<Rightarrow> string \<Rightarrow> int \<Rightarrow> int list \<Rightarrow> string list \<Rightarrow> ref_state" where
  "reset_ref rs bid tot image_indices filenames =
     (let items = map pending_item (zip image_indices filenames);
          addrs = [next_addr rs ..< next_addr rs + length items]
      in \<lparr>objects = fold (\<lambda>(a, p) h. h(a := p)) (zip addrs items) (objects rs),
          next_addr = next_addr rs + length items,
          bstate = (bstate rs)\<lparr>batch_id := bid, active := True, total' := tot,
                                completed := 0, failed := 0, progress := addrs,
                                results := []\<rparr>\<rparr>)"

fun update_status_ref_loop ::
  "store \<Rightarrow> addr list \<Rightarrow> int \<Rightarrow> string \<Rightarrow> string option \<Rightarrow> store" where
  "update_status_ref_loop h [] idx st err = h"
| "update_status_ref_loop h (a # as) idx st err =
     (if image_index (h a) = idx
      then h(a := (h a)\<lparr>status := st, error := (if truthy err then err else error (h a))\<rparr>)
      else update_status_ref_loop h as idx st err)"

definition update_status_ref ::
  "ref_state \<Rightarrow> int \<Rightarrow> string \<Rightarrow> string option \<Rightarrow> ref_state" where
  "update_status_ref rs idx st err =
     (let rs1 = rs\<lparr>objects :=
                     update_status_ref_loop (objects rs) (progress (bstate rs)) idx st err\<rparr>
      in if st = ''completed''
         then rs1\<lparr>bstate := (bstate rs1)\<lparr>completed := completed (bstate rs1) + 1\<rparr>\<rparr>
         else if st = ''failed''
         then rs1\<lparr>bstate := (bstate rs1)\<lparr>failed := failed (bstate rs1) + 1\<rparr>\<rparr>
         else rs1)"

text \<open>Reading the entries a list of references points to, in a given store.\<close>

definition deref :: "store \<Rightarrow> addr list \<Rightarrow> progress_item list" where
  "deref h as = map h as"

text \<open>
  The state by value that a state with references stands for; on it the operations
  above are the ones of the first section.
\<close>

definition abs_state :: "ref_state \<Rightarrow> progress_item BatchState" where
  "abs_state rs =
     \<lparr>batch_id = batch_id (bstate rs), active = active (bstate rs),
      progress = deref (objects rs) (progress (bstate rs)),
      results = results (bstate rs), total' = total' (bstate rs),
      completed = completed (bstate rs), failed = failed (bstate rs)\<rparr>"

text \<open>
  A caller that assigns to a key of an entry of a snapshot it holds, as in
  \<^verbatim>\<open>snapshot['progress'][i]['status'] = value\<close>.
\<close>

definition set_snapshot_status :: "ref_state \<Rightarrow> addr snapshot \<Rightarrow> nat \<Rightarrow> string \<Rightarrow> ref_state"
  where
  "set_snapshot_status rs snap i v =
     (if i < length (s_progress snap)
      then rs\<lparr>objects := (objects rs)
                 (s_progress snap ! i := (objects rs (s_progress snap ! i))\<lparr>status := v\<rparr>)\<rparr>
      else rs)"

lemma update_status_ref_loop_other:
  "a \<notin> set as \<Longrightarrow> update_status_ref_loop h as idx st err a = h a"
  by (induction as) auto

lemma update_status_ref_loop_deref:
  "distinct as \<Longrightarrow>
   deref (update_status_ref_loop h as idx st err) as
     = update_status_loop (deref h as) idx st err"
proof (induction as)
  case Nil
  show ?case by (simp add: deref_def)
next
  case (Cons a as)
  then have a: "a \<notin> set as" and d: "distinct as" by simp_all
  show ?case
  proof (cases "image_index (h a) = idx")
    case True
    have "map (h(a := (h a)\<lparr>status := st,
                 error := (if truthy err then err else error (h a))\<rparr>)) as = map h as"
      using a by (intro map_cong) auto
    then show ?thesis using True by (simp add: deref_def)
  next
    case False
    have "update_status_ref_loop h as idx st err a = h a"
      using a by (rule update_status_ref_loop_other)
    then show ?thesis using False Cons.IH [OF d] by (simp add: deref_def)
  qed
qed

lemma update_status_ref_refines:
  "distinct (progress (bstate rs)) \<Longrightarrow>
   abs_state (update_status_ref rs idx st err) = update_status (abs_state rs) idx st err"
  by (simp add: abs_state_def update_status_ref_def update_status_def Let_def
      update_status_ref_loop_deref)

lemma fold_store_other:
  "a \<notin> fst ` set l \<Longrightarrow> fold (\<lambda>(a, p) h. h(a := p)) l h a = h a"
  by (induction l arbitrary: h) auto

lemma fold_store_deref:
  "deref (fold (\<lambda>(a, p) h. h(a := p)) (zip [n ..< n + length items] items) h)
     [n ..< n + length items] = items"
proof (induction items arbitrary: n h)
  case Nil
  show ?case by (simp add: deref_def)
next
  case (Cons x xs)
  define R where "R = [Suc n ..< Suc n + length xs]"
  define h' where "h' = fold (\<lambda>(a, p) h. h(a := p)) (zip R xs) (h(n := x))"
  have len: "n + length (x # xs) = Suc n + length xs" by simp
  have "n < Suc n + length xs" by simp
  then have "[n ..< Suc n + length xs] = n # [Suc n ..< Suc n + length xs]"
    by (rule upt_conv_Cons)
  then have upt: "[n ..< n + length (x # xs)] = n # R" unfolding R_def len .
  have "n \<notin> fst ` set (zip R xs)"
    unfolding R_def by (auto dest: set_zip_leftD)
  then have "h' n = (h(n := x)) n" unfolding h'_def by (rule fold_store_other)
  then have hd: "h' n = x" by simp
  have tl: "deref h' R = xs" unfolding h'_def R_def by (rule Cons.IH)
  have "fold (\<lambda>(a, p) h. h(a := p)) (zip (n # R) (x # xs)) h = h'"
    unfolding h'_def by simp
  then have "deref (fold (\<lambda>(a, p) h. h(a := p)) (zip (n # R) (x # xs)) h) (n # R)
      = h' n # deref h' R"
    by (simp add: deref_def)
  then show ?case unfolding upt hd tl .
qed

lemma reset_ref_refines:
  "abs_state (reset_ref rs bid tot image_indices filenames)
     = reset (abs_state rs) bid tot image_indices filenames"
proof -
  let ?items = "map pending_item (zip image_indices filenames)"
  have "deref (fold (\<lambda>(a, p) h. h(a := p))
                 (zip [next_addr rs ..< next_addr rs + length ?items] ?items) (objects rs))
          [next_addr rs ..< next_addr rs + length ?items] = ?items"
    by (rule fold_store_deref)
  then show ?thesis
    by (simp add: abs_state_def reset_ref_def reset_def Let_def)
qed

lemma reset_ref_distinct:
  "distinct (progress (bstate (reset_ref rs bid tot image_indices filenames)))"
  by (simp add: reset_ref_def Let_def)

definition one_item_state :: ref_state where
  "one_item_state = reset_ref ref_init ''batch_1'' 1 [0] [''a.png'']"

lemma one_item_state_eq:
  "bstate one_item_state =
     \<lparr>batch_id = ''batch_1'', active = True, progress = [0], results = [],
      total' = 1, completed = 0, failed = 0\<rparr> \<and>
   objects one_item_state 0 =
     \<lparr>image_index = 0, filename = ''a.png'', status = ''pending'', error = None\<rparr>"
  by (simp add: one_item_state_def reset_ref_def ref_init_def BatchState_init_def
      pending_item_def Let_def)

text \<open>
  C6 (the code at the failing input): a snapshot taken of the one-item batch reads
  \<open>pending\<close>; after \<open>update_status(0, 'failed', 'boom')\<close> on the batch state the same
  snapshot reads \<open>failed\<close> with the error, because the copied list refers to the
  state's own dictionaries. In the other direction, assigning to the \<open>status\<close> key of
  the snapshot's entry changes what the batch state holds.
\<close>

theorem snapshot_shares_items:
  "map status (deref (objects one_item_state)
                 (s_progress (get_status (bstate one_item_state)))) = [''pending''] \<and>
   map status (deref (objects (update_status_ref one_item_state 0 ''failed'' (Some ''boom'')))
                 (s_progress (get_status (bstate one_item_state)))) = [''failed''] \<and>
   map error (deref (objects (update_status_ref one_item_state 0 ''failed'' (Some ''boom'')))
                (s_progress (get_status (bstate one_item_state)))) = [Some ''boom''] \<and>
   map status (progress (abs_state
      (set_snapshot_status one_item_state (get_status (bstate one_item_state)) 0 ''edited'')))
     = [''edited'']"
  by (simp add: one_item_state_eq get_status_def deref_def update_status_ref_def
      set_snapshot_status_def abs_state_def Let_def)

text \<open>
  What the snapshot does keep: its scalar fields and the list itself are detached, so
  the counters, the flag and the length and order of \<open>progress\<close> in a snapshot do not
  change with later updates of the state.
\<close>

lemma snapshot_scalars_fixed:
  "s_completed (get_status (bstate rs)) = completed (bstate rs) \<and>
   s_failed (get_status (bstate rs)) = failed (bstate rs) \<and>
   s_active (get_status (bstate rs)) = active (bstate rs) \<and>
   s_progress (get_status (bstate rs)) = progress (bstate rs)"
  by (simp add: get_status_def)

section \<open>Shutdown (\<open>cleanup_upload_folder\<close>, \<open>shutdown_server\<close>, \<open>signal_handler\<close>)\<close>

text \<open>
  The external resources are the contents of the upload, results and models folders.
  A folder that exists is the list of its entries as \<^verbatim>\<open>os.listdir\<close> gives them; an entry
  is a regular file, a directory or something else, and \<open>e_removable\<close> says whether
  \<^verbatim>\<open>os.remove\<close> or \<^verbatim>\<open>shutil.rmtree\<close> succeeds on it.
\<close>

datatype entry_kind = RegularFile | Directory | OtherEntry

record entry =
  e_name :: string
  e_kind :: entry_kind
  e_removable :: bool

type_synonym filesystem = "string \<rightharpoonup> entry list"

record folders =
  UPLOAD_FOLDER :: string
  RESULTS_FOLDER :: string
  MODELS_FOLDER :: string

text \<open>
  The inner loop over one folder: files and directories are removed, other entries are
  skipped. The \<open>try\<close> encloses the whole loop, so the first removal that raises ends
  the loop for this folder and leaves the remaining entries.
\<close>

fun cleanup_items :: "entry list \<Rightarrow> entry list" where
  "cleanup_items [] = []"
| "cleanup_items (x # xs) =
     (if e_kind x = OtherEntry then x # cleanup_items xs
      else if e_removable x then cleanup_items xs
      else x # xs)"

definition cleanup_folder :: "string \<Rightarrow> filesystem \<Rightarrow> filesystem" where
  "cleanup_folder folder_path fs =
     (case fs folder_path of
        None \<Rightarrow> fs
      | Some items \<Rightarrow> fs(folder_path \<mapsto> cleanup_items items))"

definition cleanup_upload_folder :: "folders \<Rightarrow> filesystem \<Rightarrow> filesystem" where
  "cleanup_upload_folder cfg fs =
     fold cleanup_folder [UPLOAD_FOLDER cfg, RESULTS_FOLDER cfg, MODELS_FOLDER cfg] fs"

text \<open>
  The process: its files, what it has done so far, and whether it has exited.
  \<open>os._exit(0)\<close> ends the process at once; nothing runs in a process that has exited.
  Both shutdown paths first poll \<open>parallel_batch_state.is_active()\<close> for a bounded time;
  the polling reads the batch state, changes nothing and always ends, and is left out.
\<close>

datatype event = CleanupRun | SigintSent | ProcessExit

record process =
  files :: filesystem
  events :: "event list"
  exited :: bool

definition run_cleanup :: "folders \<Rightarrow> process \<Rightarrow> process" where
  "run_cleanup cfg p =
     p\<lparr>files := cleanup_upload_folder cfg (files p), events := events p @ [CleanupRun]\<rparr>"

definition exit_process :: "process \<Rightarrow> process" where
  "exit_process p = p\<lparr>events := events p @ [ProcessExit], exited := True\<rparr>"

text \<open>\<open>signal_handler\<close>: clean up, then \<open>os._exit(0)\<close>.\<close>

definition signal_handler :: "folders \<Rightarrow> process \<Rightarrow> process" where
  "signal_handler cfg p = (if exited p then p else exit_process (run_cleanup cfg p))"

text \<open>
  \<open>shutdown_server\<close>: clean up, then start the thread \<open>do_shutdown\<close>, which sends
  \<open>SIGINT\<close> to the process itself, so that \<open>signal_handler\<close> runs; when \<^verbatim>\<open>os.kill\<close>
  raises (\<open>kill_ok\<close> false) the thread exits the process directly.
\<close>

definition shutdown_server :: "folders \<Rightarrow> bool \<Rightarrow> process \<Rightarrow> process" where
  "shutdown_server cfg kill_ok p =
     (if exited p then p
      else let p1 = run_cleanup cfg p
           in if kill_ok then signal_handler cfg (p1\<lparr>events := events p1 @ [SigintSent]\<rparr>)
              else exit_process p1)"

definition cleanup_runs :: "process \<Rightarrow> nat" where
  "cleanup_runs p = count_list (events p) CleanupRun"

subsection \<open>Cleaning up twice\<close>

lemma cleanup_items_idem: "cleanup_items (cleanup_items xs) = cleanup_items xs"
  by (induction xs) auto

lemma cleanup_folder_apply:
  "cleanup_folder f fs g = (if g = f then map_option cleanup_items (fs f) else fs g)"
  by (simp add: cleanup_folder_def split: option.splits)

lemma cleanup_upload_folder_apply:
  "cleanup_upload_folder cfg fs g =
     (if g = UPLOAD_FOLDER cfg \<or> g = RESULTS_FOLDER cfg \<or> g = MODELS_FOLDER cfg
      then map_option cleanup_items (fs g) else fs g)"
  by (simp add: cleanup_upload_folder_def cleanup_folder_apply option.map_comp comp_def
      cleanup_items_idem)

lemma cleanup_upload_folder_idem:
  "cleanup_upload_folder cfg (cleanup_upload_folder cfg fs) = cleanup_upload_folder cfg fs"
  by (rule ext)
     (simp add: cleanup_upload_folder_apply option.map_comp comp_def cleanup_items_idem)

definition example_folders :: folders where
  "example_folders =
     \<lparr>UPLOAD_FOLDER = ''uploads'', RESULTS_FOLDER = ''results'', MODELS_FOLDER = ''models''\<rparr>"

definition example_process :: process where
  "example_process =
     \<lparr>files = [''uploads'' \<mapsto> [\<lparr>e_name = ''a.png'', e_kind = RegularFile, e_removable = True\<rparr>],
               ''results'' \<mapsto> []],
      events = [], exited = False\<rparr>"

text \<open>
  C5 (as stated, refuted): nothing guards the release. One shutdown request through
  the API runs \<open>cleanup_upload_folder\<close> in the handler and again in the signal handler
  that the request itself triggers: two runs before the process exits.
\<close>

theorem api_shutdown_cleans_twice:
  "events (shutdown_server example_folders True example_process)
     = [CleanupRun, SigintSent, CleanupRun, ProcessExit] \<and>
   cleanup_runs (shutdown_server example_folders True example_process) = 2"
  by (simp add: shutdown_server_def signal_handler_def run_cleanup_def exit_process_def
      example_process_def cleanup_runs_def Let_def)

text \<open>
  C5 (amended): the shutdown sequence has no guard. A signal runs the release once and
  exits the process; an API shutdown request runs it once in the handler and, when its
  \<open>SIGINT\<close> is delivered, once more in the signal handler (once in all when the signal
  cannot be sent); after the process has exited nothing runs. Running the release
  again is harmless: \<open>cleanup_upload_folder\<close> is idempotent, so the folders end as one
  run leaves them, on either path.
\<close>

theorem shutdown_release_runs:
  "cleanup_runs (signal_handler cfg p) = cleanup_runs p + (if exited p then 0 else 1) \<and>
   cleanup_runs (shutdown_server cfg kill_ok p)
     = cleanup_runs p + (if exited p then 0 else if kill_ok then 2 else 1) \<and>
   cleanup_upload_folder cfg (cleanup_upload_folder cfg fs) = cleanup_upload_folder cfg fs \<and>
   files (shutdown_server cfg kill_ok p) = files (signal_handler cfg p) \<and>
   files (signal_handler cfg p)
     = (if exited p then files p else cleanup_upload_folder cfg (files p)) \<and>
   exited (signal_handler cfg p) \<and> exited (shutdown_server cfg kill_ok p)"
  by (simp add: shutdown_server_def signal_handler_def run_cleanup_def exit_process_def
      cleanup_runs_def Let_def cleanup_upload_folder_idem)

end
